theory Spec2Isabelle
  imports Main "HOL-Library.AList" "HOL-Library.Sublist" "HOL-Library.Char_ord"
    "HOL-Library.List_Lexorder"
begin

section \<open>Strings and insertion-ordered containers\<close>

text \<open>
  Strings are lists of characters. \<open>toLowerCase\<close> lowers the letters A to Z and leaves
  every other character as it is; \<open>includesStr s sub\<close> is the substring test of
  \<^verbatim>\<open>String.prototype.includes\<close>.
\<close>

definition toLowerChar :: "char \<Rightarrow> char" where
  "toLowerChar c =
     (let n = (of_char c :: nat) in if 65 \<le> n \<and> n \<le> 90 then char_of (n + 32) else c)"

definition toLowerCase :: "string \<Rightarrow> string" where
  "toLowerCase s = map toLowerChar s"

fun includesStr :: "string \<Rightarrow> string \<Rightarrow> bool" where
  "includesStr [] sub = (sub = [])"
| "includesStr (c # cs) sub = (prefix sub (c # cs) \<or> includesStr cs sub)"

fun joinWith :: "string \<Rightarrow> string list \<Rightarrow> string" where
  "joinWith sep [] = []"
| "joinWith sep [x] = x"
| "joinWith sep (x # y # ys) = x @ sep @ joinWith sep (y # ys)"

text \<open>
  A JavaScript \<^verbatim>\<open>Set\<close> iterates in insertion order and ignores the insertion of a
  member it already has. \<open>setAdd\<close> is \<^verbatim>\<open>Set.prototype.add\<close> on the list of members,
  \<open>setFrom acc xs\<close> adds the elements of \<open>xs\<close> one by one, so that
  \<open>setFrom [] xs\<close> is \<^verbatim>\<open>Array.from(new Set(xs))\<close>.
\<close>

definition setAdd :: "'a list \<Rightarrow> 'a \<Rightarrow> 'a list" where
  "setAdd acc x = (if x \<in> set acc then acc else acc @ [x])"

fun setFrom :: "'a list \<Rightarrow> 'a list \<Rightarrow> 'a list" where
  "setFrom acc [] = acc"
| "setFrom acc (x # xs) = setFrom (setAdd acc x) xs"

text \<open>
  A \<^verbatim>\<open>Record<string, T>\<close> is an association list in insertion order; assignment to a key
  is \<^const>\<open>AList.update\<close> (in place for a key already there, at the end for a new one).
  This is the order of \<^verbatim>\<open>Object.keys\<close> for keys that are not canonical array indices, as
  issue keys and folder names are. \<open>entries m k\<close> is \<^verbatim>\<open>m[k] || []\<close>.
\<close>

type_synonym adjacency = "(string \<times> string list) list"

definition entries :: "adjacency \<Rightarrow> string \<Rightarrow> string list" where
  "entries m k = (case map_of m k of None \<Rightarrow> [] | Some xs \<Rightarrow> xs)"

text \<open>
  \<^verbatim>\<open>if (!m[p]) m[p] = []; if (!m[p].includes(c)) m[p].push(c);\<close>
\<close>

definition pushUnique :: "adjacency \<Rightarrow> string \<Rightarrow> string \<Rightarrow> adjacency" where
  "pushUnique m p c = AList.update p (setAdd (entries m p) c) m"

text \<open>
  \<^verbatim>\<open>if (!m[p]) m[p] = []; m[p].push(c);\<close>
\<close>

definition pushAlways :: "adjacency \<Rightarrow> string \<Rightarrow> string \<Rightarrow> adjacency" where
  "pushAlways m p c = AList.update p (entries m p @ [c]) m"

section \<open>Issue records\<close>

text \<open>
  The grouping field \<^verbatim>\<open>customfield_10102\<close> as the tracker may deliver it: absent or
  falsy, a string, an object (of which the code reads the string properties \<^verbatim>\<open>key\<close> and
  \<^verbatim>\<open>id\<close> and the result of a callable \<^verbatim>\<open>toString\<close>, each possibly missing), or another
  truthy value such as a number. An object of parsed JSON inherits \<^verbatim>\<open>toString\<close>; objects
  whose \<^verbatim>\<open>key\<close> or \<^verbatim>\<open>id\<close> is not a string, or whose \<^verbatim>\<open>toString\<close> is present but not
  a function, are not represented.
\<close>

datatype epicLinkValue =
    EpicNone
  | EpicString string
  | EpicObject "string option" "string option" "string option"
  | EpicOther

record linkedIssue =
  linkedKey :: string
  linkedSummary :: string

record issueLink =
  linkId :: string
  linkName :: string
  inward :: string
  outward :: string
  inwardIssue :: "linkedIssue option"
  outwardIssue :: "linkedIssue option"

record issue =
  key :: string
  summary :: string
  issuetype :: string
  customfield_10102 :: epicLinkValue
  issuelinks :: "issueLink list"

record hmaps =
  issueMap :: "(string \<times> issue) list"
  epicMap :: adjacency
  coversMap :: adjacency
  parentMap :: adjacency

section \<open>The tree renderer \<open>buildTreeLines\<close>\<close>

text \<open>
  A rendered node stands for the two lines that \<^verbatim>\<open>buildTreeLines\<close> pushes for an issue
  (the title line and the status line); of their text the model keeps the key, the level
  and the \<^verbatim>\<open>isLast\<close> flag that selects the connector.
\<close>

record rendered =
  rkey :: string
  rlevel :: nat
  risLast :: bool

text \<open>
  \<^verbatim>\<open>Array.from(new Set([...coveredIssues, ...childIssues]))\<close>
\<close>

definition allChildren :: "hmaps \<Rightarrow> string \<Rightarrow> string list" where
  "allChildren m issueKey =
     setFrom [] (entries (coversMap m) issueKey @ entries (parentMap m) issueKey)"

definition unvisited :: "hmaps \<Rightarrow> string set \<Rightarrow> nat" where
  "unvisited m visited = card (fst ` set (issueMap m) - visited)"

text \<open>
  \<open>buildTreeLines\<close> returns the lines together with the visited set as the call leaves it
  (the source mutates the set it is given). \<open>buildChildLines\<close> is its
  \<^verbatim>\<open>for (let i = 0; i < allChildren.length; i++)\<close> loop; \<^verbatim>\<open>isLastChild\<close> holds when no
  child follows.
\<close>

function buildTreeLines ::
    "hmaps \<Rightarrow> string \<Rightarrow> nat \<Rightarrow> bool \<Rightarrow> string set \<Rightarrow> rendered list \<times> string set"
  and buildChildLines ::
    "hmaps \<Rightarrow> string list \<Rightarrow> nat \<Rightarrow> string set \<Rightarrow> rendered list \<times> string set"
where
  "buildTreeLines m issueKey level isLast visited =
     (if issueKey \<in> visited then ([], visited)
      else case map_of (issueMap m) issueKey of
             None \<Rightarrow> ([], insert issueKey visited)
           | Some i \<Rightarrow>
               (case buildChildLines m (allChildren m issueKey) (level + 1)
                       (insert issueKey visited) of
                  (childLines, visited') \<Rightarrow>
                    (\<lparr>rkey = issueKey, rlevel = level, risLast = isLast\<rparr> # childLines,
                     visited')))"
| "buildChildLines m [] level visited = ([], visited)"
| "buildChildLines m (childKey # rest) level visited =
     (case buildTreeLines m childKey level (rest = []) visited of
        (childLines, visited') \<Rightarrow>
          (case buildChildLines m rest level visited' of
             (restLines, visited'') \<Rightarrow> (childLines @ restLines, visited'')))"
  by pat_completeness auto

lemma visited_grows_partial:
  "buildTreeLines_buildChildLines_dom (Inl (m, k, level, isLast, visited)) \<Longrightarrow>
     visited \<subseteq> snd (buildTreeLines m k level isLast visited)"
  "buildTreeLines_buildChildLines_dom (Inr (m, ks, level, visited)) \<Longrightarrow>
     visited \<subseteq> snd (buildChildLines m ks level visited)"
proof (induction m k level isLast visited and m ks level visited
       rule: buildTreeLines_buildChildLines.pinduct)
  case (1 m issueKey level isLast visited)
  then show ?case
    by (auto simp: buildTreeLines.psimps split: option.splits prod.splits)
next
  case (2 m level visited)
  then show ?case by (simp add: buildChildLines.psimps)
next
  case (3 m childKey rest level visited)
  then show ?case
    by (fastforce simp: buildChildLines.psimps split: prod.splits)
qed

lemma unvisited_mono: "v \<subseteq> v' \<Longrightarrow> unvisited m v' \<le> unvisited m v"
  unfolding unvisited_def by (intro card_mono) auto

lemma unvisited_insert:
  assumes "map_of (issueMap m) k = Some i" "k \<notin> v"
  shows "unvisited m (insert k v) < unvisited m v"
proof -
  have kin: "k \<in> fst ` set (issueMap m)"
    using assms(1) by (metis map_of_eq_None_iff option.distinct(1))
  have "fst ` set (issueMap m) - insert k v \<subset> fst ` set (issueMap m) - v"
    using kin assms(2) by auto
  then show ?thesis
    unfolding unvisited_def by (intro psubset_card_mono) auto
qed

termination buildTreeLines
proof (relation "inv_image (less_than <*lex*> less_than)
         (\<lambda>x. case x of
                Inl (m, k, level, isLast, visited) \<Rightarrow> (unvisited m visited, 0)
              | Inr (m, ks, level, visited) \<Rightarrow> (unvisited m visited, Suc (length ks)))",
       goal_cases)
  case 1
  then show ?case by (simp add: wf_lex_prod)
next
  case (2 m issueKey level isLast visited x2)
  then show ?case by (simp add: unvisited_insert)
next
  case (3 m childKey rest level visited)
  then show ?case by simp
next
  case (4 m childKey rest level visited x y)
  then have "visited \<subseteq> y"
    using visited_grows_partial(1)[of m childKey level "rest = []" visited]
    by (metis snd_conv)
  then have "unvisited m y \<le> unvisited m visited" by (rule unvisited_mono)
  then show ?case by auto
qed

declare buildTreeLines.simps [simp del]

section \<open>Relationship extraction\<close>

text \<open>
  The grouping field as the first loop of \<^verbatim>\<open>getIssueHierarchy\<close> reads it, to collect the
  epics to fetch: a string is taken as it is, else a truthy \<^verbatim>\<open>key\<close> property, else the
  result of \<^verbatim>\<open>toString()\<close>; the key is used only when it is truthy (not empty).
\<close>

definition truthyKey :: "string option \<Rightarrow> string option" where
  "truthyKey r = (case r of None \<Rightarrow> None | Some s \<Rightarrow> if s = [] then None else Some s)"

definition epicKeyToFetch :: "epicLinkValue \<Rightarrow> string option" where
  "epicKeyToFetch epicLink =
     (case epicLink of
        EpicNone \<Rightarrow> None
      | EpicString s \<Rightarrow> truthyKey (Some s)
      | EpicObject keyProp idProp toStr \<Rightarrow>
          truthyKey (case truthyKey keyProp of Some k \<Rightarrow> Some k | None \<Rightarrow> toStr)
      | EpicOther \<Rightarrow> None)"

text \<open>
  The grouping field as the second loop decodes it, to emit the epic edge: a string, else
  a string \<^verbatim>\<open>key\<close> property, else a string \<^verbatim>\<open>id\<close> property, else the result of a
  callable \<^verbatim>\<open>toString\<close>; again only a truthy result counts.
\<close>

definition decodeEpicLink :: "epicLinkValue \<Rightarrow> string option" where
  "decodeEpicLink epicLink =
     (case epicLink of
        EpicNone \<Rightarrow> None
      | EpicString s \<Rightarrow> truthyKey (Some s)
      | EpicObject keyProp idProp toStr \<Rightarrow>
          truthyKey (case keyProp of
                       Some k \<Rightarrow> Some k
                     | None \<Rightarrow> (case idProp of Some i \<Rightarrow> Some i | None \<Rightarrow> toStr))
      | EpicOther \<Rightarrow> None)"


text \<open>\<^verbatim>\<open>!issueMap[k]?.fields?.customfield_10102\<close> tests the truthiness of the raw value.\<close>

definition epicLinkTruthy :: "epicLinkValue \<Rightarrow> bool" where
  "epicLinkTruthy epicLink =
     (case epicLink of EpicNone \<Rightarrow> False | EpicString s \<Rightarrow> s \<noteq> [] | _ \<Rightarrow> True)"

text \<open>
  One typed link yields up to four edges, in the order of the four \<^verbatim>\<open>if\<close> blocks of the
  source: covers (outward), covered by (inward), is parent of (outward), is child of
  (inward). Each edge carries the map it goes to, the parent key, the child key and the
  linked issue at the other end. Both modes run the same four blocks and differ only in
  what they do with the linked issue (register a stub, or fetch it).
\<close>

datatype edgeKind = Coverage | Containment

record linkEdge =
  edgeMap :: edgeKind
  edgeParent :: string
  edgeChild :: string
  edgeOther :: linkedIssue

definition outwardEdge :: "edgeKind \<Rightarrow> string \<Rightarrow> string \<Rightarrow> issueLink \<Rightarrow> linkEdge list" where
  "outwardEdge kind phrase k link =
     (case outwardIssue link of
        None \<Rightarrow> []
      | Some other \<Rightarrow>
          if includesStr (toLowerCase (outward link)) phrase \<and> k \<noteq> [] \<and> linkedKey other \<noteq> []
          then [\<lparr>edgeMap = kind, edgeParent = k, edgeChild = linkedKey other, edgeOther = other\<rparr>]
          else [])"

definition inwardEdge :: "edgeKind \<Rightarrow> string \<Rightarrow> string \<Rightarrow> issueLink \<Rightarrow> linkEdge list" where
  "inwardEdge kind phrase k link =
     (case inwardIssue link of
        None \<Rightarrow> []
      | Some other \<Rightarrow>
          if includesStr (toLowerCase (inward link)) phrase \<and> linkedKey other \<noteq> [] \<and> k \<noteq> []
          then [\<lparr>edgeMap = kind, edgeParent = linkedKey other, edgeChild = k, edgeOther = other\<rparr>]
          else [])"

definition linkEdges :: "string \<Rightarrow> issueLink \<Rightarrow> linkEdge list" where
  "linkEdges k link =
     (if linkId link = ''10703'' \<or> includesStr (toLowerCase (linkName link)) ''requirement''
      then outwardEdge Coverage ''covers'' k link @ inwardEdge Coverage ''covered by'' k link
      else [])
     @ (if linkId link = ''10600'' \<or> includesStr (toLowerCase (linkName link)) ''parent''
        then outwardEdge Containment ''is parent of'' k link
             @ inwardEdge Containment ''is child of'' k link
        else [])"

definition issueEdges :: "string \<Rightarrow> issue \<Rightarrow> linkEdge list" where
  "issueEdges k i = concat (map (linkEdges k) (issuelinks i))"

definition addEdge :: "linkEdge \<Rightarrow> hmaps \<Rightarrow> hmaps" where
  "addEdge e m =
     (case edgeMap e of
        Coverage \<Rightarrow> m\<lparr>coversMap := pushUnique (coversMap m) (edgeParent e) (edgeChild e)\<rparr>
      | Containment \<Rightarrow> m\<lparr>parentMap := pushUnique (parentMap m) (edgeParent e) (edgeChild e)\<rparr>)"

text \<open>
  \<^verbatim>\<open>{ key: k, fields: linked.fields || {} }\<close>: the stub of a linked issue has the embedded
  summary and neither a grouping field nor links.
\<close>

definition stubIssue :: "linkedIssue \<Rightarrow> issue" where
  "stubIssue other =
     \<lparr>key = linkedKey other, summary = linkedSummary other, issuetype = [],
      customfield_10102 = EpicNone, issuelinks = []\<rparr>"

definition registerStub :: "linkedIssue \<Rightarrow> hmaps \<Rightarrow> hmaps" where
  "registerStub other m =
     (case map_of (issueMap m) (linkedKey other) of
        None \<Rightarrow> m\<lparr>issueMap := AList.update (linkedKey other) (stubIssue other) (issueMap m)\<rparr>
      | Some _ \<Rightarrow> m)"

section \<open>The tracker interface\<close>

record searchResult =
  issues :: "issue list"
  totalCount :: nat

record apiError =
  statusCode :: "nat option"
  message :: string

record structureElement =
  elementId :: string
  elementName :: string
  elementSummary :: string
  parentId :: string
  elementIssueKey :: string
  typeTag :: string
  folderFlag :: bool
  elementType :: string

text \<open>
  The calls of \<^verbatim>\<open>apiClient\<close> that the hierarchy builders make. A call that throws returns
  \<open>Inl\<close> of the error. \<open>searchIssues\<close> takes the query and \<^verbatim>\<open>maxResults\<close>,
  \<open>getStructureHierarchy\<close> the structure id and \<^verbatim>\<open>maxResults\<close>.
\<close>

record jiraApi =
  searchIssues :: "string \<Rightarrow> nat \<Rightarrow> apiError + searchResult"
  getIssue :: "string \<Rightarrow> apiError + issue"
  getStructureHierarchy :: "string \<Rightarrow> nat \<Rightarrow> apiError + structureElement list"

section \<open>Forest mode: \<open>getIssueHierarchy\<close>\<close>

record forestParams =
  jql :: "string option"
  assignee :: "string option"
  maxResults :: "nat option"

definition defaultJql :: string where
  "defaultJql = ''assignee = currentUser() AND statusCategory != Done''"

definition forestJql :: "forestParams \<Rightarrow> string" where
  "forestJql params =
     (case truthyKey (jql params) of
        Some q \<Rightarrow> q
      | None \<Rightarrow>
          (case truthyKey (assignee params) of
             Some a \<Rightarrow> ''assignee = '' @ a @ '' AND statusCategory != Done''
           | None \<Rightarrow> defaultJql))"

definition forestEpicJql :: "forestParams \<Rightarrow> string" where
  "forestEpicJql params =
     ''issuetype = Epic'' @
     (if includesStr (forestJql params) ''assignee = currentUser()''
      then '' AND (assignee = currentUser() OR reporter = currentUser())''
      else case truthyKey (assignee params) of
             Some a \<Rightarrow> '' AND (assignee = '' @ a @ '' OR reporter = '' @ a @ '')''
           | None \<Rightarrow>
               (case truthyKey (jql params) of
                  Some q \<Rightarrow> '' AND ('' @ q @ '')''
                | None \<Rightarrow> []))"

definition forestMaxResults :: "forestParams \<Rightarrow> nat" where
  "forestMaxResults params =
     (case maxResults params of None \<Rightarrow> 200 | Some n \<Rightarrow> if n = 0 then 200 else n)"

text \<open>
  The first loop over the query result: register the issue and collect the epic key of
  its grouping field in the set \<^verbatim>\<open>epicKeysToFetch\<close>.
\<close>

definition collectIssue ::
    "(string \<times> issue) list \<times> string list \<Rightarrow> issue \<Rightarrow> (string \<times> issue) list \<times> string list" where
  "collectIssue st i =
     (AList.update (key i) i (fst st),
      case epicKeyToFetch (customfield_10102 i) of
        None \<Rightarrow> snd st
      | Some epicKey \<Rightarrow> setAdd (snd st) epicKey)"

text \<open>The loop over the result of the epics query.\<close>

definition collectEpic ::
    "(string \<times> issue) list \<times> string list \<Rightarrow> issue \<Rightarrow> (string \<times> issue) list \<times> string list" where
  "collectEpic st epic =
     ((case map_of (fst st) (key epic) of
         None \<Rightarrow> AList.update (key epic) epic (fst st)
       | Some _ \<Rightarrow> fst st),
      setAdd (snd st) (key epic))"

definition epicsToFetch :: "string list \<Rightarrow> issue list \<Rightarrow> string list" where
  "epicsToFetch epicKeysArray epics =
     filter (\<lambda>k. k \<notin> set (map key epics)) epicKeysArray"

text \<open>
  The loop that fetches the epics by key. The second component is the list of the keys
  passed to \<^verbatim>\<open>apiClient.getIssue\<close>, in call order; a failed fetch is logged and skipped.
\<close>

fun fetchEpics ::
    "jiraApi \<Rightarrow> string list \<Rightarrow> (string \<times> issue) list \<times> string list \<Rightarrow>
     (string \<times> issue) list \<times> string list" where
  "fetchEpics api [] st = st"
| "fetchEpics api (epicKey # rest) st =
     fetchEpics api rest
       (case getIssue api epicKey of
          Inl err \<Rightarrow> (fst st, snd st @ [epicKey])
        | Inr epic \<Rightarrow>
            ((case map_of (fst st) (key epic) of
                None \<Rightarrow> AList.update (key epic) epic (fst st)
              | Some _ \<Rightarrow> fst st),
             snd st @ [epicKey]))"

text \<open>The second loop over the query result: the epic edge, then the edges of the links.\<close>

definition processEpicLink :: "issue \<Rightarrow> hmaps \<Rightarrow> hmaps" where
  "processEpicLink i m =
     (case decodeEpicLink (customfield_10102 i) of
        None \<Rightarrow> m
      | Some epicKey \<Rightarrow> m\<lparr>epicMap := pushAlways (epicMap m) epicKey (key i)\<rparr>)"

definition processIssue :: "hmaps \<Rightarrow> issue \<Rightarrow> hmaps" where
  "processIssue m i =
     foldl (\<lambda>m' e. registerStub (edgeOther e) (addEdge e m'))
       (processEpicLink i m) (issueEdges (key i) i)"

definition processRelationships :: "issue list \<Rightarrow> hmaps \<Rightarrow> hmaps" where
  "processRelationships is m = foldl processIssue m is"

definition allEpicKeysInMap :: "hmaps \<Rightarrow> string list" where
  "allEpicKeysInMap m = map fst (filter (\<lambda>p. snd p \<noteq> []) (epicMap m))"

subsection \<open>The folder overlay\<close>

record folderInfo =
  folderId :: string
  folderName :: string
  folderParentId :: string

record overlay =
  issueToFolderMap :: adjacency
  folderMap :: "(string \<times> string list) list"
  structureErrors :: "string list"

definition isFolder :: "structureElement \<Rightarrow> bool" where
  "isFolder e =
     (elementIssueKey e = [] \<and>
      (typeTag e = ''folder'' \<or> folderFlag e \<or> elementType e = ''folder''))"

definition folderInfoOf :: "structureElement \<Rightarrow> folderInfo" where
  "folderInfoOf e =
     \<lparr>folderId = elementId e,
      folderName = (if elementName e \<noteq> [] then elementName e
                    else if elementSummary e \<noteq> [] then elementSummary e
                    else ''Unnamed Folder''),
      folderParentId = parentId e\<rparr>"

definition collectFolders :: "structureElement list \<Rightarrow> (string \<times> folderInfo) list" where
  "collectFolders elements =
     foldl (\<lambda>fm e. if isFolder e then AList.update (elementId e) (folderInfoOf e) fm else fm)
       [] elements"

text \<open>
  \<^verbatim>\<open>getFolderPath\<close> follows \<^verbatim>\<open>parentId\<close> with no guard against a cycle. The first
  argument bounds the depth of the recursion; \<open>None\<close> is the \<^verbatim>\<open>RangeError\<close> of an exhausted
  call stack, which the \<^verbatim>\<open>try\<close> around the overlay catches.
\<close>

fun getFolderPath ::
    "nat \<Rightarrow> structureElement list \<Rightarrow> (string \<times> folderInfo) list \<Rightarrow> string \<Rightarrow>
     string list option" where
  "getFolderPath 0 elements folderInfoMap eid = None"
| "getFolderPath (Suc n) elements folderInfoMap eid =
     (case find (\<lambda>e. elementId e = eid) elements of
        None \<Rightarrow> Some []
      | Some element \<Rightarrow>
          if \<not> isFolder element then Some []
          else (case map_of folderInfoMap eid of
                  None \<Rightarrow> Some []
                | Some folder \<Rightarrow>
                    if folderParentId folder \<noteq> []
                    then (case getFolderPath n elements folderInfoMap (folderParentId folder) of
                            None \<Rightarrow> None
                          | Some parentPath \<Rightarrow> Some (parentPath @ [folderName folder]))
                    else Some [folderName folder]))"

definition arrowSep :: string where
  "arrowSep = [CHR '' '', CHR 0xE2, CHR 0x86, CHR 0x92, CHR '' '']"

text \<open>\<^verbatim>\<open>folderPath.split(sep)[0]\<close>: the text before the first separator.\<close>

fun beforeSep :: "string \<Rightarrow> string \<Rightarrow> string" where
  "beforeSep sep [] = []"
| "beforeSep sep (c # cs) = (if prefix sep (c # cs) then [] else c # beforeSep sep cs)"

text \<open>
  The body of the loop that maps the issues of the structure to their folder paths.
  A folder of \<^verbatim>\<open>folderMap\<close> is identified by its id (the structure id is the constant
  \<^verbatim>\<open>'138'\<close>). The recursion of \<^verbatim>\<open>getFolderPath\<close> is given one level more than there are
  elements: a chain of parents that needs more visits an element twice and so never ends.
\<close>

definition mapElement ::
    "structureElement list \<Rightarrow> (string \<times> folderInfo) list \<Rightarrow> hmaps \<Rightarrow> string list \<Rightarrow>
     structureElement \<Rightarrow> overlay \<Rightarrow> overlay option" where
  "mapElement elements folderInfoMap m epicKeys e ov =
     (if elementIssueKey e \<noteq> [] \<and>
         (map_of (issueMap m) (elementIssueKey e) \<noteq> None \<or> elementIssueKey e \<in> set epicKeys) \<and>
         parentId e \<noteq> []
      then (case getFolderPath (Suc (length elements)) elements folderInfoMap (parentId e) of
              None \<Rightarrow> None
            | Some folderPath \<Rightarrow>
                if folderPath \<noteq> []
                then Some (ov\<lparr>issueToFolderMap :=
                                pushUnique (issueToFolderMap ov) (elementIssueKey e)
                                  (joinWith arrowSep folderPath),
                              folderMap :=
                                pushUnique (folderMap ov) (last folderPath) (parentId e)\<rparr>)
                else Some ov)
      else Some ov)"

definition stackOverflowMessage :: string where
  "stackOverflowMessage = ''Maximum call stack size exceeded''"

fun mapElements ::
    "structureElement list \<Rightarrow> (string \<times> folderInfo) list \<Rightarrow> hmaps \<Rightarrow> string list \<Rightarrow>
     structureElement list \<Rightarrow> overlay \<Rightarrow> overlay" where
  "mapElements elements folderInfoMap m epicKeys [] ov = ov"
| "mapElements elements folderInfoMap m epicKeys (e # es) ov =
     (case mapElement elements folderInfoMap m epicKeys e ov of
        None \<Rightarrow> ov\<lparr>structureErrors := structureErrors ov @ [stackOverflowMessage]\<rparr>
      | Some ov' \<Rightarrow> mapElements elements folderInfoMap m epicKeys es ov')"

definition is404 :: "apiError \<Rightarrow> bool" where
  "is404 err =
     (statusCode err = Some 404 \<or> includesStr (message err) ''404''
      \<or> includesStr (message err) ''Not Found'')"

definition emptyOverlay :: overlay where
  "emptyOverlay = \<lparr>issueToFolderMap = [], folderMap = [], structureErrors = []\<rparr>"

text \<open>
  The \<^verbatim>\<open>try\<close> block around \<^verbatim>\<open>getStructureHierarchy\<close>, applied to what the call returned.
  An error other than a 404 is recorded in \<^verbatim>\<open>structureErrors\<close> (the model keeps its
  message); a 404 is only logged.
\<close>

definition folderOverlay ::
    "hmaps \<Rightarrow> string list \<Rightarrow> apiError + structureElement list \<Rightarrow> overlay" where
  "folderOverlay m epicKeys r =
     (case r of
        Inl err \<Rightarrow>
          (if is404 err then emptyOverlay
           else emptyOverlay\<lparr>structureErrors := [message err]\<rparr>)
      | Inr elements \<Rightarrow>
          mapElements elements (collectFolders elements) m epicKeys elements emptyOverlay)"

subsection \<open>Grouping the epics by folder\<close>

text \<open>
  \<^verbatim>\<open>epicFolders\<close>: the top folders of the epic's own paths, then of the paths of its
  issues, as a set in insertion order.
\<close>

definition epicFolders :: "overlay \<Rightarrow> hmaps \<Rightarrow> string \<Rightarrow> string list" where
  "epicFolders ov m epicKey =
     setFrom []
       (map (beforeSep arrowSep)
          (entries (issueToFolderMap ov) epicKey
           @ concat (map (entries (issueToFolderMap ov)) (entries (epicMap m) epicKey))))"

text \<open>
  One step of the loop over \<^verbatim>\<open>allEpicKeysInMap\<close>; the state is \<^verbatim>\<open>folderToEpicsMap\<close>
  (folder name to epic keys) and \<^verbatim>\<open>epicsWithoutFolders\<close>.
\<close>

definition groupEpic ::
    "overlay \<Rightarrow> hmaps \<Rightarrow> adjacency \<times> string list \<Rightarrow> string \<Rightarrow> adjacency \<times> string list" where
  "groupEpic ov m st epicKey =
     (if epicFolders ov m epicKey \<noteq> []
      then (foldl (\<lambda>fm folderName. pushUnique fm folderName epicKey) (fst st)
              (epicFolders ov m epicKey),
            snd st)
      else (fst st, snd st @ [epicKey]))"

subsection \<open>Rendering the sections\<close>

text \<open>
  The loop over the issues of an epic:
  \<^verbatim>\<open>if (issueMap[issueKey]) { ... buildTreeLines(issueKey, level, prefix, isLast, visited) }\<close>
  over the first \<open>cap\<close> issues, \<^verbatim>\<open>isLast\<close> at the last index of the loop. The visited set
  is the one created for this epic.
\<close>

fun renderIssues ::
    "hmaps \<Rightarrow> nat \<Rightarrow> string list \<Rightarrow> string set \<Rightarrow> rendered list \<times> string set" where
  "renderIssues m level [] visited = ([], visited)"
| "renderIssues m level (issueKey # rest) visited =
     (if map_of (issueMap m) issueKey \<noteq> None
      then (case buildTreeLines m issueKey level (rest = []) visited of
              (treeLines, visited') \<Rightarrow>
                (case renderIssues m level rest visited' of
                   (restLines, visited'') \<Rightarrow> (treeLines @ restLines, visited'')))
      else renderIssues m level rest visited)"

record epicSection =
  secEpicKey :: string
  secEpicFound :: bool
  secIssueCount :: nat
  secTree :: "rendered list"
  secRemaining :: nat

text \<open>
  An epic under a folder: a missing epic record gets its header only (\<^verbatim>\<open>continue\<close>);
  otherwise the first 20 issues are rendered at level 2 with a fresh visited set.
\<close>

definition folderEpicSection :: "hmaps \<Rightarrow> string \<Rightarrow> epicSection" where
  "folderEpicSection m epicKey =
     (case map_of (issueMap m) epicKey of
        None \<Rightarrow>
          \<lparr>secEpicKey = epicKey, secEpicFound = False,
           secIssueCount = length (entries (epicMap m) epicKey), secTree = [],
           secRemaining = 0\<rparr>
      | Some epic \<Rightarrow>
          \<lparr>secEpicKey = epicKey, secEpicFound = True,
           secIssueCount = length (entries (epicMap m) epicKey),
           secTree = fst (renderIssues m 2 (take 20 (entries (epicMap m) epicKey)) {}),
           secRemaining = length (entries (epicMap m) epicKey) - 20\<rparr>)"

text \<open>
  An epic without folder: the first 30 issues are rendered at level 1 with a fresh
  visited set, whether the epic record was found or not.
\<close>

definition plainEpicSection :: "hmaps \<Rightarrow> string \<Rightarrow> epicSection" where
  "plainEpicSection m epicKey =
     \<lparr>secEpicKey = epicKey, secEpicFound = (map_of (issueMap m) epicKey \<noteq> None),
      secIssueCount = length (entries (epicMap m) epicKey),
      secTree = fst (renderIssues m 1 (take 30 (entries (epicMap m) epicKey)) {}),
      secRemaining = length (entries (epicMap m) epicKey) - 30\<rparr>"

definition epicTypeName :: string where
  "epicTypeName = [CHR 0xD0, CHR 0xAD, CHR 0xD0, CHR 0xBF, CHR 0xD0, CHR 0xB8, CHR 0xD0, CHR 0xBA]"

definition tasksWithoutEpic :: "hmaps \<Rightarrow> string list" where
  "tasksWithoutEpic m =
     filter
       (\<lambda>k. k \<notin> set (allEpicKeysInMap m) \<and>
            (case map_of (issueMap m) k of
               None \<Rightarrow> True
             | Some i \<Rightarrow> issuetype i \<noteq> epicTypeName \<and> \<not> epicLinkTruthy (customfield_10102 i)))
       (map fst (issueMap m))"

definition rootTasks :: "hmaps \<Rightarrow> string list" where
  "rootTasks m =
     filter
       (\<lambda>k. k \<notin> set (concat (map snd (coversMap m))) \<and> k \<notin> set (concat (map snd (parentMap m))))
       (tasksWithoutEpic m)"

text \<open>
  The tasks without epic: the first 20 roots at level 0, one visited set for the section.
  The loop has the shape of the child loop of \<open>buildTreeLines\<close> (no guard, \<^verbatim>\<open>isLast\<close> at
  the last index).
\<close>

definition renderRootTasks :: "hmaps \<Rightarrow> rendered list" where
  "renderRootTasks m = fst (buildChildLines m (take 20 (rootTasks m)) 0 {})"

subsection \<open>The whole call\<close>

text \<open>
  The result of a forest build, as data: the counts of the header, the recorded structure
  errors, the epics under each folder (folder names sorted), the epics without folder,
  the tasks without epic and the statistics. \<open>outLookups\<close> is not part of the text: it
  lists the keys passed to \<^verbatim>\<open>apiClient.getIssue\<close> during the call, in call order.
\<close>

record forestOutput =
  outTotal :: nat
  outEpics :: nat
  outFolders :: nat
  outIssuesWithFolders :: nat
  outStructureErrors :: "string list"
  outFolderSections :: "(string \<times> epicSection list) list"
  outEpicSections :: "epicSection list"
  outRootTasks :: "rendered list"
  outRootRemaining :: nat
  outEpicLinkCount :: nat
  outCoversCount :: nat
  outParentCount :: nat
  outHierarchyCount :: nat
  outLookups :: "string list"

text \<open>
  From the two query results to the maps: both collecting loops, the epics fetched by
  key, and the relationships of the issues of the first query.
\<close>

definition forestRegistry ::
    "jiraApi \<Rightarrow> issue list \<Rightarrow> issue list \<Rightarrow> (string \<times> issue) list \<times> string list" where
  "forestRegistry api found epics =
     fetchEpics api
       (epicsToFetch (snd (foldl collectEpic (foldl collectIssue ([], []) found) epics)) epics)
       (fst (foldl collectEpic (foldl collectIssue ([], []) found) epics), [])"

definition forestMaps :: "jiraApi \<Rightarrow> issue list \<Rightarrow> issue list \<Rightarrow> hmaps" where
  "forestMaps api found epics =
     processRelationships found
       \<lparr>issueMap = fst (forestRegistry api found epics), epicMap = [], coversMap = [],
        parentMap = []\<rparr>"

definition renderForest :: "hmaps \<Rightarrow> overlay \<Rightarrow> nat \<Rightarrow> string list \<Rightarrow> forestOutput" where
  "renderForest m ov n looked =
     (let grouped = foldl (groupEpic ov m) ([], []) (allEpicKeysInMap m) in
      \<lparr>outTotal = n,
       outEpics = length (allEpicKeysInMap m),
       outFolders = length (folderMap ov),
       outIssuesWithFolders = length (issueToFolderMap ov),
       outStructureErrors = structureErrors ov,
       outFolderSections =
         map (\<lambda>folderName. (folderName, map (folderEpicSection m) (entries (fst grouped) folderName)))
           (sort (map fst (fst grouped))),
       outEpicSections = map (plainEpicSection m) (snd grouped),
       outRootTasks = renderRootTasks m,
       outRootRemaining = length (rootTasks m) - 20,
       outEpicLinkCount = sum_list (map (\<lambda>p. length (snd p)) (epicMap m)),
       outCoversCount = sum_list (map (\<lambda>p. length (snd p)) (coversMap m)),
       outParentCount = sum_list (map (\<lambda>p. length (snd p)) (parentMap m)),
       outHierarchyCount = length (issueMap m),
       outLookups = looked\<rparr>)"

definition failureMessage :: "apiError \<Rightarrow> string" where
  "failureMessage err = ''Failed to build issue hierarchy: '' @ message err"

text \<open>
  \<open>Inl\<close> is the error that \<^verbatim>\<open>getIssueHierarchy\<close> throws from its outer \<^verbatim>\<open>catch\<close>; only
  the two queries are outside an inner \<^verbatim>\<open>try\<close>.
\<close>

definition getIssueHierarchy :: "jiraApi \<Rightarrow> forestParams \<Rightarrow> string + forestOutput" where
  "getIssueHierarchy api params =
     (case searchIssues api (forestJql params) (forestMaxResults params) of
        Inl err \<Rightarrow> Inl (failureMessage err)
      | Inr response \<Rightarrow>
          (case searchIssues api (forestEpicJql params) 100 of
             Inl err \<Rightarrow> Inl (failureMessage err)
           | Inr epicsResponse \<Rightarrow>
               Inr (renderForest
                      (forestMaps api (issues response) (issues epicsResponse))
                      (folderOverlay
                         (forestMaps api (issues response) (issues epicsResponse))
                         (allEpicKeysInMap
                            (forestMaps api (issues response) (issues epicsResponse)))
                         (getStructureHierarchy api ''138'' 1000))
                      (totalCount response)
                      (snd (forestRegistry api (issues response) (issues epicsResponse))))))"

section \<open>Rooted mode: \<open>getIssueHierarchyFromRoot\<close>\<close>















section \<open>Transitions: \<open>transitionIssue\<close> and \<open>completeIssue\<close>\<close>

text \<open>
  The names that the source writes in Cyrillic, as the bytes of their UTF-8 encoding: the
  statuses \<^verbatim>\<open>Zakryt\<close> (closed) and \<^verbatim>\<open>Gotovo\<close> (done), the latter also in lower case, the
  Cyrillic entries of \<^verbatim>\<open>ALLOWED_STATUSES_FOR_COMPLETION\<close>, and the comment of the
  intermediate closing transition.
\<close>

definition closedName :: string where
  "closedName =
    [CHR 0xD0, CHR 0x97, CHR 0xD0, CHR 0xB0, CHR 0xD0, CHR 0xBA, CHR 0xD1, CHR 0x80,
     CHR 0xD1, CHR 0x8B, CHR 0xD1, CHR 0x82]"

definition doneName :: string where
  "doneName =
    [CHR 0xD0, CHR 0x93, CHR 0xD0, CHR 0xBE, CHR 0xD1, CHR 0x82, CHR 0xD0, CHR 0xBE,
     CHR 0xD0, CHR 0xB2, CHR 0xD0, CHR 0xBE]"

definition doneNameLower :: string where
  "doneNameLower =
    [CHR 0xD0, CHR 0xB3, CHR 0xD0, CHR 0xBE, CHR 0xD1, CHR 0x82, CHR 0xD0, CHR 0xBE,
     CHR 0xD0, CHR 0xB2, CHR 0xD0, CHR 0xBE]"

definition statusToDo :: string where
  "statusToDo =
    [CHR 0xD0, CHR 0xA1, CHR 0xD0, CHR 0xB4, CHR 0xD0, CHR 0xB5, CHR 0xD0, CHR 0xBB,
     CHR 0xD0, CHR 0xB0, CHR 0xD1, CHR 0x82, CHR 0xD1, CHR 0x8C]"

definition statusReopened :: string where
  "statusReopened =
    [CHR 0xD0, CHR 0x9F, CHR 0xD0, CHR 0xB5, CHR 0xD1, CHR 0x80, CHR 0xD0, CHR 0xB5,
     CHR 0xD0, CHR 0xBE, CHR 0xD1, CHR 0x82, CHR 0xD0, CHR 0xBA, CHR 0xD1, CHR 0x80,
     CHR 0xD1, CHR 0x8B, CHR 0xD1, CHR 0x82]"

definition statusInWork :: string where
  "statusInWork =
    [CHR 0xD0, CHR 0x92, CHR '' '', CHR 0xD1, CHR 0x80, CHR 0xD0, CHR 0xB0, CHR 0xD0,
     CHR 0xB1, CHR 0xD0, CHR 0xBE, CHR 0xD1, CHR 0x82, CHR 0xD0, CHR 0xB5]"

definition statusTesting :: string where
  "statusTesting =
    [CHR 0xD0, CHR 0xA2, CHR 0xD0, CHR 0xB5, CHR 0xD1, CHR 0x81, CHR 0xD1, CHR 0x82,
     CHR 0xD0, CHR 0xB8, CHR 0xD1, CHR 0x80, CHR 0xD0, CHR 0xBE, CHR 0xD0, CHR 0xB2,
     CHR 0xD0, CHR 0xB0, CHR 0xD0, CHR 0xBD, CHR 0xD0, CHR 0xB8, CHR 0xD0, CHR 0xB5,
     CHR '' '', CHR 0xD0, CHR 0xB2, CHR '' '', CHR 0xD0, CHR 0xBF, CHR 0xD1, CHR 0x80,
     CHR 0xD0, CHR 0xBE, CHR 0xD1, CHR 0x86, CHR 0xD0, CHR 0xB5, CHR 0xD1, CHR 0x81,
     CHR 0xD1, CHR 0x81, CHR 0xD0, CHR 0xB5]"

definition closeComment :: string where
  "closeComment =
    [CHR 0xD0, CHR 0x9F, CHR 0xD0, CHR 0xB5, CHR 0xD1, CHR 0x80, CHR 0xD0, CHR 0xB5,
     CHR 0xD0, CHR 0xB2, CHR 0xD0, CHR 0xBE, CHR 0xD0, CHR 0xB6, CHR 0xD1, CHR 0x83,
     CHR '' '', CHR 0xD0, CHR 0xB2, CHR '' '', CHR 0xD0, CHR 0x97, CHR 0xD0, CHR 0xB0,
     CHR 0xD0, CHR 0xBA, CHR 0xD1, CHR 0x80, CHR 0xD1, CHR 0x8B, CHR 0xD1, CHR 0x82,
     CHR '' '', CHR 0xD0, CHR 0xB4, CHR 0xD0, CHR 0xBB, CHR 0xD1, CHR 0x8F, CHR '' '',
     CHR 0xD0, CHR 0xBF, CHR 0xD1, CHR 0x80, CHR 0xD0, CHR 0xB0, CHR 0xD0, CHR 0xB2,
     CHR 0xD0, CHR 0xB8, CHR 0xD0, CHR 0xBB, CHR 0xD1, CHR 0x8C, CHR 0xD0, CHR 0xBD,
     CHR 0xD0, CHR 0xBE, CHR 0xD0, CHR 0xB3, CHR 0xD0, CHR 0xBE, CHR '' '', CHR ''w'',
     CHR ''o'', CHR ''r'', CHR ''k'', CHR ''f'', CHR ''l'', CHR ''o'', CHR ''w'']"

definition ALLOWED_STATUSES_FOR_COMPLETION :: "string list" where
  "ALLOWED_STATUSES_FOR_COMPLETION =
     [statusToDo, statusReopened, ''Backlog'', statusInWork, ''For test'', statusTesting,
      ''Under Review'']"

record resolutionField =
  resolutionRequired :: bool
  allowedValues :: "string list"

record transition =
  transitionId :: string
  transitionName :: string
  toName :: string
  toCategoryKey :: string
  resolution :: "resolutionField option"

record issueDetails =
  detSummary :: string
  detStatusName :: string
  detStatusCategoryKey :: string
  detIssueType :: string
  detDescription :: string

text \<open>
  The tracker seen through \<^verbatim>\<open>apiClient\<close>: \<open>'s\<close> is the state of the tracker, which only
  \<^verbatim>\<open>transitionIssue(key, id, comment, resolution)\<close> changes; a call that throws returns
  the error. The session pairs the state with the calls made so far.
\<close>

datatype trackerCall =
    GetIssueCall string
  | GetTransitionsCall string
  | TransitionCall string string "string option" "string option"

record 's trackerApi =
  trackerGetIssue :: "'s \<Rightarrow> string \<Rightarrow> apiError + issueDetails"
  trackerGetTransitions :: "'s \<Rightarrow> string \<Rightarrow> apiError + transition list"
  trackerTransition ::
    "'s \<Rightarrow> string \<Rightarrow> string \<Rightarrow> string option \<Rightarrow> string option \<Rightarrow> 's \<times> apiError option"

type_synonym 's session = "'s \<times> trackerCall list"

type_synonym ('s, 'a) tracked = "'s session \<Rightarrow> (string + 'a) \<times> 's session"

text \<open>Sequencing of awaited steps: a thrown error (its message) ends the sequence.\<close>

definition andThen :: "('s, 'a) tracked \<Rightarrow> ('a \<Rightarrow> ('s, 'b) tracked) \<Rightarrow> ('s, 'b) tracked" where
  "andThen f g st = (case f st of (Inl msg, st') \<Rightarrow> (Inl msg, st') | (Inr a, st') \<Rightarrow> g a st')"

definition returns :: "'a \<Rightarrow> ('s, 'a) tracked" where
  "returns a st = (Inr a, st)"

definition throws :: "string \<Rightarrow> ('s, 'a) tracked" where
  "throws msg st = (Inl msg, st)"

definition callGetIssue :: "'s trackerApi \<Rightarrow> string \<Rightarrow> ('s, issueDetails) tracked" where
  "callGetIssue api k st =
     (case trackerGetIssue api (fst st) k of
        Inl err \<Rightarrow> (Inl (message err), (fst st, snd st @ [GetIssueCall k]))
      | Inr i \<Rightarrow> (Inr i, (fst st, snd st @ [GetIssueCall k])))"

definition callGetTransitions :: "'s trackerApi \<Rightarrow> string \<Rightarrow> ('s, transition list) tracked" where
  "callGetTransitions api k st =
     (case trackerGetTransitions api (fst st) k of
        Inl err \<Rightarrow> (Inl (message err), (fst st, snd st @ [GetTransitionsCall k]))
      | Inr ts \<Rightarrow> (Inr ts, (fst st, snd st @ [GetTransitionsCall k])))"

definition callTransition ::
    "'s trackerApi \<Rightarrow> string \<Rightarrow> string \<Rightarrow> string option \<Rightarrow> string option \<Rightarrow> ('s, unit) tracked" where
  "callTransition api k tid comment res st =
     (case trackerTransition api (fst st) k tid comment res of
        (s', Some err) \<Rightarrow> (Inl (message err), (s', snd st @ [TransitionCall k tid comment res]))
      | (s', None) \<Rightarrow> (Inr (), (s', snd st @ [TransitionCall k tid comment res])))"

text \<open>The outer \<^verbatim>\<open>catch\<close> of a method rethrows with the method's prefix.\<close>

definition rethrow :: "string \<Rightarrow> ('s, 'a) tracked \<Rightarrow> ('s, 'a) tracked" where
  "rethrow pre f st = (case f st of (Inl msg, st') \<Rightarrow> (Inl (pre @ msg), st') | r \<Rightarrow> r)"

subsection \<open>\<open>transitionIssue\<close>\<close>





subsection \<open>\<open>completeIssue\<close>\<close>

text \<open>
  The file of \<^verbatim>\<open>IssueTracker\<close>: missing, unreadable (not JSON, or not an object), or an
  object with or without the property \<^verbatim>\<open>issueKey\<close>. \<open>getLastIssue\<close> answers \<^verbatim>\<open>null\<close> in
  every case but a truthy \<^verbatim>\<open>issueKey\<close>; it never throws.
\<close>

datatype trackerFile =
    NoTrackerFile
  | BrokenTrackerFile
  | TrackerFile "string option"

definition getLastIssue :: "trackerFile \<Rightarrow> string option" where
  "getLastIssue f =
     (case f of
        NoTrackerFile \<Rightarrow> None
      | BrokenTrackerFile \<Rightarrow> None
      | TrackerFile k \<Rightarrow> truthyKey k)"

record completeParams =
  cpIssueKey :: "string option"
  cpCustomResolution :: "string option"
  cpConfirm :: bool

record completion =
  completedIssue :: string
  previousStatus :: string
  statusBefore :: string
  finalStatus :: string
  usedResolution :: "string option"
  resolutionText :: string
  viaCanceled :: bool

datatype completeResult =
    NothingToComplete
  | ConfirmationRequest string
  | Completed completion

text \<open>\<^verbatim>\<open>allowedValues[0].name\<close> where the transition lists allowed resolutions.\<close>

definition firstAllowed :: "transition \<Rightarrow> string option" where
  "firstAllowed t =
     (case resolution t of
        None \<Rightarrow> None
      | Some f \<Rightarrow> (case allowedValues f of [] \<Rightarrow> None | v # vs \<Rightarrow> Some v))"

definition isDoneResolution :: "string \<Rightarrow> bool" where
  "isDoneResolution r = (r = doneName \<or> toLowerCase r = doneNameLower)"

text \<open>The resolution of a transition into the category done that does not lead to the
  status done: the done resolution if allowed, else the first allowed one, else the done
  resolution by name.\<close>

definition categoryResolution :: "transition \<Rightarrow> string option" where
  "categoryResolution t =
     (case firstAllowed t of
        None \<Rightarrow> Some doneName
      | Some v \<Rightarrow>
          (case resolution t of
             None \<Rightarrow> Some doneName
           | Some f \<Rightarrow>
               (case find isDoneResolution (allowedValues f) of
                  Some r \<Rightarrow> Some r
                | None \<Rightarrow> Some v)))"

text \<open>The resolution of a transition to the status done: set only where the field is
  required or lists allowed values.\<close>

definition readyResolution :: "transition \<Rightarrow> string option" where
  "readyResolution t =
     (case resolution t of
        None \<Rightarrow> None
      | Some f \<Rightarrow>
          if resolutionRequired f \<or> allowedValues f \<noteq> []
          then (case find isDoneResolution (allowedValues f) of
                  Some r \<Rightarrow> Some r
                | None \<Rightarrow>
                    (case allowedValues f of
                       [] \<Rightarrow> Some doneName
                     | v # vs \<Rightarrow> if v = [] then Some doneName else Some v))
          else None)"

definition cannotComplete :: "string \<Rightarrow> string" where
  "cannotComplete status =
     ''Cannot complete issue from status '' @ [CHR 0x22] @ status @ [CHR 0x22]
     @ ''. Allowed statuses: '' @ joinWith '', '' ALLOWED_STATUSES_FOR_COMPLETION
     @ '', or '' @ closedName"

definition noDoneTransition :: "transition list \<Rightarrow> string" where
  "noDoneTransition transitions =
     ''No transition to '' @ [CHR 0x22] @ doneName @ [CHR 0x22]
     @ '' status found. Available transitions: ''
     @ joinWith '', '' (map (\<lambda>t. transitionName t @ arrowSep @ toName t) transitions)"

text \<open>An issue in the status Canceled of the category done is first moved to the closed
  status, where a transition to it exists.\<close>

definition closeCanceled :: "'s trackerApi \<Rightarrow> string \<Rightarrow> issueDetails \<Rightarrow> ('s, unit) tracked" where
  "closeCanceled api k i =
     (if detStatusName i = ''Canceled'' \<and> detStatusCategoryKey i = ''done''
      then andThen (callGetTransitions api k) (\<lambda>transitions1.
             case find (\<lambda>t. toName t = closedName) transitions1 of
               None \<Rightarrow> returns ()
             | Some closeTransition \<Rightarrow>
                 callTransition api k (transitionId closeTransition) (Some closeComment)
                   (firstAllowed closeTransition))
      else returns ())"

text \<open>After a transition that led to Canceled: on to the closed status and from there to
  done, as far as the transitions exist; \<open>fallback\<close> is the answer where they do not.\<close>

definition throughClosed ::
    "'s trackerApi \<Rightarrow> string \<Rightarrow> string \<Rightarrow> completion \<Rightarrow> ('s, completeResult) tracked" where
  "throughClosed api k text fallback =
     andThen (callGetTransitions api k) (\<lambda>afterCanceled.
       case find (\<lambda>t. toName t = closedName) afterCanceled of
         None \<Rightarrow> returns (Completed fallback)
       | Some closeTransition \<Rightarrow>
           andThen (callTransition api k (transitionId closeTransition) (Some closeComment)
                      (firstAllowed closeTransition)) (\<lambda>u.
             andThen (callGetTransitions api k) (\<lambda>afterClosed.
               case find (\<lambda>t. toName t = doneName) afterClosed of
                 None \<Rightarrow> returns (Completed fallback)
               | Some readyTransition \<Rightarrow>
                   andThen (callTransition api k (transitionId readyTransition) (Some text)
                              (readyResolution readyTransition)) (\<lambda>u'.
                     returns (Completed (fallback\<lparr>finalStatus := doneName,
                                usedResolution := readyResolution readyTransition,
                                viaCanceled := True\<rparr>))))))"

text \<open>
  The method from the lookup of the issue on, for the key \<open>k\<close>. \<open>generate\<close> is the
  resolution text generator, a collaborator of its own.
\<close>

definition completeKnown ::
    "'s trackerApi \<Rightarrow> (issueDetails \<Rightarrow> string) \<Rightarrow> completeParams \<Rightarrow> string \<Rightarrow>
     ('s, completeResult) tracked" where
  "completeKnown api generate params k =
     andThen (callGetIssue api k) (\<lambda>i.
     andThen (closeCanceled api k i) (\<lambda>u.
     andThen (callGetIssue api k) (\<lambda>updatedIssue.
       if detStatusName updatedIssue \<notin> set ALLOWED_STATUSES_FOR_COMPLETION
          \<and> detStatusName updatedIssue \<noteq> closedName
       then throws (cannotComplete (detStatusName updatedIssue))
       else
         andThen (callGetTransitions api k) (\<lambda>transitions.
           case find (\<lambda>t. toName t = doneName) transitions of
             Some doneTransition \<Rightarrow>
               andThen (callTransition api k (transitionId doneTransition)
                          (Some (case truthyKey (cpCustomResolution params) of
                                   Some text \<Rightarrow> text | None \<Rightarrow> generate i))
                          (readyResolution doneTransition)) (\<lambda>u'.
                 returns (Completed
                   \<lparr>completedIssue = k, previousStatus = detStatusName i,
                    statusBefore = detStatusName updatedIssue,
                    finalStatus = toName doneTransition,
                    usedResolution = readyResolution doneTransition,
                    resolutionText = (case truthyKey (cpCustomResolution params) of
                                        Some text \<Rightarrow> text | None \<Rightarrow> generate i),
                    viaCanceled = False\<rparr>))
           | None \<Rightarrow>
               (case find (\<lambda>t. toCategoryKey t = ''done'') transitions of
                  None \<Rightarrow> throws (noDoneTransition transitions)
                | Some doneCategoryTransition \<Rightarrow>
                    andThen (callTransition api k (transitionId doneCategoryTransition)
                               (Some (case truthyKey (cpCustomResolution params) of
                                        Some text \<Rightarrow> text | None \<Rightarrow> generate i))
                               (categoryResolution doneCategoryTransition)) (\<lambda>u'.
                      if toName doneCategoryTransition = ''Canceled''
                      then throughClosed api k
                             (case truthyKey (cpCustomResolution params) of
                                Some text \<Rightarrow> text | None \<Rightarrow> generate i)
                             \<lparr>completedIssue = k, previousStatus = detStatusName i,
                              statusBefore = detStatusName updatedIssue,
                              finalStatus = toName doneCategoryTransition,
                              usedResolution = categoryResolution doneCategoryTransition,
                              resolutionText = (case truthyKey (cpCustomResolution params) of
                                                  Some text \<Rightarrow> text | None \<Rightarrow> generate i),
                              viaCanceled = False\<rparr>
                      else returns (Completed
                             \<lparr>completedIssue = k, previousStatus = detStatusName i,
                              statusBefore = detStatusName updatedIssue,
                              finalStatus = toName doneCategoryTransition,
                              usedResolution = categoryResolution doneCategoryTransition,
                              resolutionText = (case truthyKey (cpCustomResolution params) of
                                                  Some text \<Rightarrow> text | None \<Rightarrow> generate i),
                              viaCanceled = False\<rparr>)))))))"

text \<open>
  \<open>completeIssue\<close>: without a truthy \<^verbatim>\<open>issueKey\<close> the last viewed issue is taken from the
  tracker file; the two early answers are returned before the \<^verbatim>\<open>apiClient\<close> is called.
\<close>

definition completeIssue ::
    "'s trackerApi \<Rightarrow> (issueDetails \<Rightarrow> string) \<Rightarrow> trackerFile \<Rightarrow> completeParams \<Rightarrow>
     ('s, completeResult) tracked" where
  "completeIssue api generate file params =
     (case truthyKey (cpIssueKey params) of
        Some k \<Rightarrow> rethrow ''Failed to complete issue: '' (completeKnown api generate params k)
      | None \<Rightarrow>
          (case getLastIssue file of
             None \<Rightarrow> returns NothingToComplete
           | Some lastIssue \<Rightarrow>
               if \<not> cpConfirm params then returns (ConfirmationRequest lastIssue)
               else rethrow ''Failed to complete issue: ''
                      (completeKnown api generate params lastIssue)))"

section \<open>Example inputs\<close>

definition exampleIssue :: "string \<Rightarrow> epicLinkValue \<Rightarrow> issueLink list \<Rightarrow> issue" where
  "exampleIssue k e ls =
     \<lparr>key = k, summary = ''Summary of '' @ k, issuetype = ''Task'', customfield_10102 = e,
      issuelinks = ls\<rparr>"

definition exampleEpic :: "string \<Rightarrow> issue" where
  "exampleEpic k =
     \<lparr>key = k, summary = ''Summary of '' @ k, issuetype = epicTypeName,
      customfield_10102 = EpicNone, issuelinks = []\<rparr>"

definition parentOfLink :: "string \<Rightarrow> issueLink" where
  "parentOfLink c =
     \<lparr>linkId = ''10600'', linkName = ''Parent-Child'', inward = ''is child of'',
      outward = ''is parent of'', inwardIssue = None,
      outwardIssue = Some \<lparr>linkedKey = c, linkedSummary = ''Summary of '' @ c\<rparr>\<rparr>"

definition coversLink :: "string \<Rightarrow> issueLink" where
  "coversLink c =
     \<lparr>linkId = ''10703'', linkName = ''Requirement'', inward = ''covered by'',
      outward = ''covers'', inwardIssue = None,
      outwardIssue = Some \<lparr>linkedKey = c, linkedSummary = ''Summary of '' @ c\<rparr>\<rparr>"

definition notFound :: apiError where
  "notFound = \<lparr>statusCode = Some 404, message = ''Not Found''\<rparr>"

text \<open>A tracker that answers every call with 404.\<close>

definition emptyApi :: jiraApi where
  "emptyApi =
     \<lparr>searchIssues = (\<lambda>q n. Inl notFound), getIssue = (\<lambda>k. Inl notFound),
      getStructureHierarchy = (\<lambda>sid n. Inl notFound)\<rparr>"

text \<open>
  A group G with the members A and B (grouping field), which covers X and is the parent
  of Y.
\<close>

definition groupExample :: "issue list" where
  "groupExample =
     [exampleIssue ''G-1'' EpicNone [coversLink ''X-1'', parentOfLink ''Y-1''],
      exampleIssue ''A-1'' (EpicString ''G-1'') [],
      exampleIssue ''B-1'' (EpicString ''G-1'') []]"

text \<open>Two issues that are each the parent of the other.\<close>

definition cycleExample :: hmaps where
  "cycleExample =
     \<lparr>issueMap = [(''A-1'', exampleIssue ''A-1'' EpicNone [parentOfLink ''B-1'']),
                  (''B-1'', exampleIssue ''B-1'' EpicNone [parentOfLink ''A-1''])],
      epicMap = [], coversMap = [],
      parentMap = [(''A-1'', [''B-1'']), (''B-1'', [''A-1''])]\<rparr>"

text \<open>
  A tracker whose query returns T-1 of the epic E-1 and T-2 of the epic E-2, with T-1 the
  parent of T-2; the epics query returns both epics and the structure is not found.
\<close>

definition sharedChildApi :: jiraApi where
  "sharedChildApi =
     \<lparr>searchIssues = (\<lambda>q n.
        if prefix ''issuetype = Epic'' q
        then Inr \<lparr>issues = [exampleEpic ''E-1'', exampleEpic ''E-2''], totalCount = 2\<rparr>
        else Inr \<lparr>issues = [exampleIssue ''T-1'' (EpicString ''E-1'') [parentOfLink ''T-2''],
                            exampleIssue ''T-2'' (EpicString ''E-2'') []],
                  totalCount = 2\<rparr>),
      getIssue = (\<lambda>k. Inl notFound),
      getStructureHierarchy = (\<lambda>sid n. Inl notFound)\<rparr>"

definition defaultParams :: forestParams where
  "defaultParams = \<lparr>jql = None, assignee = None, maxResults = None\<rparr>"

text \<open>
  The same tracker with a structure: the folder Backend with the subfolder Auth, the issue
  T-1 under Auth and the epic E-2 under Backend.
\<close>

definition folderElement :: "string \<Rightarrow> string \<Rightarrow> string \<Rightarrow> structureElement" where
  "folderElement i n p =
     \<lparr>elementId = i, elementName = n, elementSummary = [], parentId = p, elementIssueKey = [],
      typeTag = ''folder'', folderFlag = False, elementType = []\<rparr>"

definition issueElement :: "string \<Rightarrow> string \<Rightarrow> string \<Rightarrow> structureElement" where
  "issueElement i k p =
     \<lparr>elementId = i, elementName = [], elementSummary = [], parentId = p, elementIssueKey = k,
      typeTag = ''issue'', folderFlag = False, elementType = []\<rparr>"

definition folderApi :: jiraApi where
  "folderApi =
     sharedChildApi\<lparr>getStructureHierarchy := (\<lambda>sid n.
       Inr [folderElement ''1'' ''Backend'' [], folderElement ''2'' ''Auth'' ''1'',
            issueElement ''3'' ''T-1'' ''2'', issueElement ''4'' ''E-2'' ''1''])\<rparr>"







text \<open>A tracker with one issue, whose state is the name of its status.\<close>

definition workflowApi :: "string trackerApi" where
  "workflowApi =
     \<lparr>trackerGetIssue = (\<lambda>s k.
        if k = ''T-1''
        then Inr \<lparr>detSummary = ''Summary of T-1'', detStatusName = s,
                  detStatusCategoryKey = ''indeterminate'', detIssueType = ''Task'',
                  detDescription = []\<rparr>
        else Inl notFound),
      trackerGetTransitions = (\<lambda>s k.
        if k = ''T-1''
        then Inr [\<lparr>transitionId = ''11'', transitionName = ''Start Progress'',
                    toName = ''In Progress'', toCategoryKey = ''indeterminate'',
                    resolution = None\<rparr>,
                  \<lparr>transitionId = ''21'', transitionName = ''Done'', toName = ''Done'',
                    toCategoryKey = ''done'', resolution = None\<rparr>]
        else Inl notFound),
      trackerTransition = (\<lambda>s k tid comment res.
        if k = ''T-1'' \<and> tid = ''11'' then (''In Progress'', None)
        else if k = ''T-1'' \<and> tid = ''21'' then (''Done'', None)
        else (s, Some notFound))\<rparr>"



definition noKeyParams :: completeParams where
  "noKeyParams = \<lparr>cpIssueKey = None, cpCustomResolution = None, cpConfirm = False\<rparr>"

section \<open>Notions used to state the properties\<close>

text \<open>
  Follows the specification, not the source: the union of the entries of the three maps
  for the key, deduplicated, in the order GroupLink, Containment, Coverage.
\<close>

definition specChildren :: "hmaps \<Rightarrow> string \<Rightarrow> string list" where
  "specChildren m k =
     setFrom [] (entries (epicMap m) k @ entries (parentMap m) k @ entries (coversMap m) k)"

text \<open>The trees of a forest result, section by section, and the keys they render.\<close>

definition sectionTrees :: "forestOutput \<Rightarrow> rendered list list" where
  "sectionTrees out =
     map secTree (concat (map snd (outFolderSections out)))
     @ map secTree (outEpicSections out)
     @ [outRootTasks out]"

definition renderedKeys :: "forestOutput \<Rightarrow> string list" where
  "renderedKeys out = map rkey (concat (sectionTrees out))"

definition keysOf :: "hmaps \<Rightarrow> string set" where
  "keysOf m = fst ` set (issueMap m)"

text \<open>
  What a walk guarantees: the visited set only grows, the keys rendered are exactly the
  newly visited keys that have a record, and no key is rendered twice.
\<close>

definition walkInv :: "hmaps \<Rightarrow> string set \<Rightarrow> rendered list \<times> string set \<Rightarrow> bool" where
  "walkInv m visited r =
     (visited \<subseteq> snd r \<and> set (map rkey (fst r)) = (snd r - visited) \<inter> keysOf m
      \<and> distinct (map rkey (fst r)))"




section \<open>Properties of the containers\<close>

lemma set_setAdd: "set (setAdd acc x) = insert x (set acc)"
  by (auto simp: setAdd_def)

lemma distinct_setAdd: "distinct acc \<Longrightarrow> distinct (setAdd acc x)"
  by (simp add: setAdd_def)

lemma set_setFrom: "set (setFrom acc xs) = set acc \<union> set xs"
  by (induction xs arbitrary: acc) (auto simp: set_setAdd)

lemma distinct_setFrom: "distinct acc \<Longrightarrow> distinct (setFrom acc xs)"
  by (induction xs arbitrary: acc) (auto simp: distinct_setAdd)

lemma setFrom_append: "setFrom acc (xs @ ys) = setFrom (setFrom acc xs) ys"
  by (induction xs arbitrary: acc) auto

lemma setFrom_acc: "setFrom acc xs = acc @ filter (\<lambda>x. x \<notin> set acc) (setFrom [] xs)"
proof (induction xs arbitrary: acc rule: rev_induct)
  case Nil
  then show ?case by simp
next
  case (snoc x xs)
  have "setFrom acc (xs @ [x]) = setAdd (setFrom acc xs) x"
    by (simp add: setFrom_append)
  also have "\<dots> = setAdd (acc @ filter (\<lambda>x. x \<notin> set acc) (setFrom [] xs)) x"
    by (simp only: snoc[of acc])
  finally have l:
    "setFrom acc (xs @ [x]) = setAdd (acc @ filter (\<lambda>x. x \<notin> set acc) (setFrom [] xs)) x" .
  have r: "setFrom [] (xs @ [x]) = setAdd (setFrom [] xs) x"
    by (simp add: setFrom_append)
  show ?case unfolding l r by (auto simp: setAdd_def)
qed

lemma count_list_distinct: "distinct xs \<Longrightarrow> x \<in> set xs \<Longrightarrow> count_list xs x = 1"
  by (induction xs) auto

section \<open>Properties of the tree renderer\<close>

lemma map_of_keysOf: "map_of (issueMap m) k = Some i \<Longrightarrow> k \<in> keysOf m"
  unfolding keysOf_def by (metis map_of_eq_None_iff option.distinct(1))

lemma map_of_not_keysOf: "map_of (issueMap m) k = None \<Longrightarrow> k \<notin> keysOf m"
  unfolding keysOf_def by (simp add: map_of_eq_None_iff)

lemma build_inv:
  "walkInv m visited (buildTreeLines m k level isLast visited)
     \<and> k \<in> snd (buildTreeLines m k level isLast visited)"
  "walkInv m visited (buildChildLines m ks level visited)
     \<and> set ks \<subseteq> snd (buildChildLines m ks level visited)"
proof (induction m k level isLast visited and m ks level visited
       rule: buildTreeLines_buildChildLines.induct)
  case (1 m issueKey level isLast visited)
  show ?case
  proof (cases "issueKey \<in> visited")
    case True
    then show ?thesis by (simp add: buildTreeLines.simps walkInv_def)
  next
    case nv: False
    show ?thesis
    proof (cases "map_of (issueMap m) issueKey")
      case None
      then show ?thesis using nv map_of_not_keysOf[OF None]
        by (auto simp: buildTreeLines.simps walkInv_def)
    next
      case (Some i)
      obtain cl v' where r:
        "buildChildLines m (allChildren m issueKey) (level + 1) (insert issueKey visited) = (cl, v')"
        by (cases "buildChildLines m (allChildren m issueKey) (level + 1) (insert issueKey visited)")
      have ih: "walkInv m (insert issueKey visited) (cl, v')"
        using 1[OF nv Some] r by simp
      have kk: "issueKey \<in> keysOf m" using Some by (rule map_of_keysOf)
      have res: "buildTreeLines m issueKey level isLast visited =
                   (\<lparr>rkey = issueKey, rlevel = level, risLast = isLast\<rparr> # cl, v')"
        using nv Some r by (simp add: buildTreeLines.simps)
      show ?thesis unfolding res using ih nv kk
        by (auto simp: walkInv_def)
    qed
  qed
next
  case (2 m level visited)
  then show ?case by (simp add: walkInv_def)
next
  case (3 m childKey rest level visited)
  obtain cl v1 where r1: "buildTreeLines m childKey level (rest = []) visited = (cl, v1)"
    by (cases "buildTreeLines m childKey level (rest = []) visited")
  obtain rl v2 where r2: "buildChildLines m rest level v1 = (rl, v2)"
    by (cases "buildChildLines m rest level v1")
  have i1: "walkInv m visited (cl, v1)" "childKey \<in> v1" using 3(1) r1 by simp_all
  have i2: "walkInv m v1 (rl, v2)" "set rest \<subseteq> v2"
    using 3(2)[OF r1[symmetric]] r2 by simp_all
  have res: "buildChildLines m (childKey # rest) level visited = (cl @ rl, v2)"
    using r1 r2 by simp
  show ?case unfolding res using i1 i2
    by (auto simp: walkInv_def)
qed

lemma allChildren_set:
  "set (allChildren m k) = set (entries (coversMap m) k) \<union> set (entries (parentMap m) k)"
  by (simp add: allChildren_def set_setFrom)

text \<open>
  A walk from a key with a record renders that key first, then every child that has a
  record, each key once.
\<close>

lemma walk_from_root:
  assumes "map_of (issueMap m) k = Some i"
  shows "distinct (map rkey (fst (buildTreeLines m k level isLast {})))"
    and "set (map rkey (fst (buildTreeLines m k level isLast {}))) \<subseteq> keysOf m"
    and "k \<in> set (map rkey (fst (buildTreeLines m k level isLast {})))"
    and "set (allChildren m k) \<inter> keysOf m
           \<subseteq> set (map rkey (fst (buildTreeLines m k level isLast {})))"
    and "\<exists>rest. fst (buildTreeLines m k level isLast {})
           = \<lparr>rkey = k, rlevel = level, risLast = isLast\<rparr> # rest"
    and "set (allChildren m k) \<subseteq> snd (buildTreeLines m k level isLast {})"
proof -
  obtain cl v' where r:
    "buildChildLines m (allChildren m k) (level + 1) (insert k {}) = (cl, v')"
    by (cases "buildChildLines m (allChildren m k) (level + 1) (insert k {})")
  have res: "buildTreeLines m k level isLast {} =
               (\<lparr>rkey = k, rlevel = level, risLast = isLast\<rparr> # cl, v')"
    using assms r by (simp add: buildTreeLines.simps)
  have inv: "walkInv m {} (buildTreeLines m k level isLast {})"
    using build_inv(1)[of m "{}" k level isLast] by simp
  have sub: "set (allChildren m k) \<subseteq> v'"
    using build_inv(2)[of m "insert k {}" "allChildren m k" "level + 1"] r by simp
  show "distinct (map rkey (fst (buildTreeLines m k level isLast {})))"
    using inv by (simp add: walkInv_def)
  show "set (map rkey (fst (buildTreeLines m k level isLast {}))) \<subseteq> keysOf m"
    using inv by (simp add: walkInv_def)
  show "k \<in> set (map rkey (fst (buildTreeLines m k level isLast {})))"
    unfolding res by simp
  show "set (allChildren m k) \<inter> keysOf m
          \<subseteq> set (map rkey (fst (buildTreeLines m k level isLast {})))"
    using inv sub unfolding res walkInv_def by auto
  show "\<exists>rest. fst (buildTreeLines m k level isLast {})
          = \<lparr>rkey = k, rlevel = level, risLast = isLast\<rparr> # rest"
    unfolding res by simp
  show "set (allChildren m k) \<subseteq> snd (buildTreeLines m k level isLast {})"
    unfolding res using sub by simp
qed

lemma renderIssues_inv: "walkInv m visited (renderIssues m level ks visited)"
proof (induction ks arbitrary: visited)
  case Nil
  then show ?case by (simp add: walkInv_def)
next
  case (Cons k ks)
  show ?case
  proof (cases "map_of (issueMap m) k = None")
    case True
    then show ?thesis using Cons by simp
  next
    case False
    obtain tl v1 where r1: "buildTreeLines m k level (ks = []) visited = (tl, v1)"
      by (cases "buildTreeLines m k level (ks = []) visited")
    obtain rl v2 where r2: "renderIssues m level ks v1 = (rl, v2)"
      by (cases "renderIssues m level ks v1")
    have i1: "walkInv m visited (tl, v1)"
      using build_inv(1)[of m visited k level "ks = []"] r1 by simp
    have i2: "walkInv m v1 (rl, v2)" using Cons[of v1] r2 by simp
    have res: "renderIssues m level (k # ks) visited = (tl @ rl, v2)"
      using False r1 r2 by simp
    show ?thesis unfolding res using i1 i2 by (auto simp: walkInv_def)
  qed
qed

lemma renderIssues_distinct: "distinct (map rkey (fst (renderIssues m level ks visited)))"
  using renderIssues_inv[of m visited level ks] by (simp add: walkInv_def)

lemma folderEpicSection_distinct: "distinct (map rkey (secTree (folderEpicSection m k)))"
  by (simp add: folderEpicSection_def renderIssues_distinct split: option.splits)

lemma plainEpicSection_distinct: "distinct (map rkey (secTree (plainEpicSection m k)))"
  by (simp add: plainEpicSection_def renderIssues_distinct)

lemma renderRootTasks_distinct: "distinct (map rkey (renderRootTasks m))"
  using build_inv(2)[of m "{}" "take 20 (rootTasks m)" 0]
  by (simp add: renderRootTasks_def walkInv_def)

lemma sectionTrees_renderForest:
  "t \<in> set (sectionTrees (renderForest m ov n looked)) \<Longrightarrow> distinct (map rkey t)"
  by (auto simp: sectionTrees_def renderForest_def Let_def folderEpicSection_distinct
      plainEpicSection_distinct renderRootTasks_distinct)

section \<open>Properties of the forest build\<close>


















section \<open>Properties of the rooted fetch\<close>






























section \<open>Properties of the transitions\<close>


lemma complete_confirmed_looks_up:
  assumes "truthyKey (cpIssueKey params) = None" "getLastIssue file = Some k" "cpConfirm params"
    and "trackerGetIssue api (fst st) k = Inl err"
  shows "completeIssue api generate file params st
           = (Inl (''Failed to complete issue: '' @ message err), (fst st, snd st @ [GetIssueCall k]))"
  using assms
  by (simp add: completeIssue_def completeKnown_def rethrow_def andThen_def callGetIssue_def)

section \<open>The folder overlay at work\<close>

text \<open>
  With the structure of \<open>folderApi\<close> both epics come under the top folder Backend (E-2 by
  its own element, E-1 by its member T-1 under Backend and Auth), and two folders are
  counted.
\<close>

lemma folder_overlay_example:
  "outFolders (projr (getIssueHierarchy folderApi defaultParams)) = 2
   \<and> map (\<lambda>p. (fst p, map secEpicKey (snd p)))
         (outFolderSections (projr (getIssueHierarchy folderApi defaultParams)))
       = [(''Backend'', [''E-1'', ''E-2''])]
   \<and> outEpicSections (projr (getIssueHierarchy folderApi defaultParams)) = []"
  by code_simp

section \<open>Failure of the forest build\<close>


section \<open>The claims\<close>

text \<open>
  C1, as the specification states it, fails on the code: the visited set is created anew
  for every epic section (and once for the tasks without epic), not once for the call.
  With T-1 in the epic E-1, T-2 in the epic E-2 and T-1 the parent of T-2, the issue T-2 is
  rendered under T-1 in the section of E-1 and again in the section of E-2.
\<close>

theorem forest_dedup_counterexample:
  "\<not> isl (getIssueHierarchy sharedChildApi defaultParams)
   \<and> count_list (renderedKeys (projr (getIssueHierarchy sharedChildApi defaultParams))) ''T-2'' = 2"
  by code_simp

text \<open>
  C1, amended: in a forest build every section (the tree of an epic under a folder, the
  tree of an epic without folder, the tasks without epic) is rendered with a visited set
  of its own, and within one section every key is rendered at most once.
\<close>

theorem forest_dedup_per_section:
  assumes "getIssueHierarchy api params = Inr out"
  shows "\<forall>t \<in> set (sectionTrees out). distinct (map rkey t)"
  using assms sectionTrees_renderForest
  by (auto simp: getIssueHierarchy_def split: sum.splits)

theorem forest_dedup_per_section_witness:
  "sectionTrees (projr (getIssueHierarchy sharedChildApi defaultParams)) ! 0
     = [\<lparr>rkey = ''T-1'', rlevel = 1, risLast = True\<rparr>, \<lparr>rkey = ''T-2'', rlevel = 2, risLast = True\<rparr>]
   \<and> distinct (map rkey (sectionTrees (projr (getIssueHierarchy sharedChildApi defaultParams)) ! 0))"
proof -
  have r: "getIssueHierarchy sharedChildApi defaultParams
             = Inr (projr (getIssueHierarchy sharedChildApi defaultParams))"
    by code_simp
  have v: "sectionTrees (projr (getIssueHierarchy sharedChildApi defaultParams)) ! 0
     = [\<lparr>rkey = ''T-1'', rlevel = 1, risLast = True\<rparr>, \<lparr>rkey = ''T-2'', rlevel = 2, risLast = True\<rparr>]"
    by code_simp
  have mem: "sectionTrees (projr (getIssueHierarchy sharedChildApi defaultParams)) ! 0
               \<in> set (sectionTrees (projr (getIssueHierarchy sharedChildApi defaultParams)))"
    by code_simp
  show ?thesis using forest_dedup_per_section[OF r] mem v by blast
qed

text \<open>
  C2, as the specification states it, fails on the code: for the group G-1 with the members
  A-1 and B-1, the covered issue X-1 and the child Y-1, the renderer enumerates the
  children X-1, Y-1 (Coverage before Containment, no group members), where the
  specification's \<open>children\<close> gives A-1, B-1, Y-1, X-1.
\<close>

theorem children_order_counterexample:
  "allChildren (forestMaps emptyApi groupExample []) ''G-1'' = [''X-1'', ''Y-1'']
   \<and> specChildren (forestMaps emptyApi groupExample []) ''G-1''
       = [''A-1'', ''B-1'', ''Y-1'', ''X-1'']"
  by code_simp

text \<open>
  C2, amended: the children that the renderer enumerates for a key are the Coverage
  entries of the key followed by its Containment entries that are not Coverage entries
  too, each in discovery order and without duplicates; the GroupLink entries take no part
  (the members of a group are listed by its section, from the GroupLink map).
\<close>

theorem children_coverage_then_containment:
  "allChildren m k =
     setFrom [] (entries (coversMap m) k)
     @ filter (\<lambda>c. c \<notin> set (entries (coversMap m) k)) (setFrom [] (entries (parentMap m) k))
   \<and> distinct (allChildren m k)
   \<and> set (allChildren m k) = set (entries (coversMap m) k) \<union> set (entries (parentMap m) k)
   \<and> allChildren (m\<lparr>epicMap := em\<rparr>) k = allChildren m k"
proof -
  have "allChildren m k
          = setFrom (setFrom [] (entries (coversMap m) k)) (entries (parentMap m) k)"
    by (simp add: allChildren_def setFrom_append)
  then have ord: "allChildren m k =
     setFrom [] (entries (coversMap m) k)
     @ filter (\<lambda>c. c \<notin> set (entries (coversMap m) k)) (setFrom [] (entries (parentMap m) k))"
    using setFrom_acc[of "setFrom [] (entries (coversMap m) k)" "entries (parentMap m) k"]
    by (simp add: set_setFrom)
  have dist: "distinct (allChildren m k)"
    by (simp add: allChildren_def distinct_setFrom)
  have unchanged: "allChildren (m\<lparr>epicMap := em\<rparr>) k = allChildren m k"
    by (simp add: allChildren_def)
  show ?thesis using ord dist allChildren_set[of m k] unchanged by blast
qed

theorem children_coverage_then_containment_witness:
  "allChildren (forestMaps emptyApi groupExample []) ''G-1''
     = setFrom [] [''X-1''] @ filter (\<lambda>c. c \<notin> set [''X-1'']) (setFrom [] [''Y-1''])"
proof -
  have c: "entries (coversMap (forestMaps emptyApi groupExample [])) ''G-1'' = [''X-1'']"
    by code_simp
  have p: "entries (parentMap (forestMaps emptyApi groupExample [])) ''G-1'' = [''Y-1'']"
    by code_simp
  show ?thesis
    using children_coverage_then_containment[of "forestMaps emptyApi groupExample []" "''G-1''"]
    unfolding c p by simp
qed

text \<open>
  C3: where A and B are each a Containment child of the other and A has a record, the walk
  from A returns (the renderer is a total function: its termination is proved with its
  definition), renders A first and once, visits B, and renders B exactly once (not at all
  where B has no record, as after a failed lookup).
\<close>

theorem containment_cycle_walk:
  assumes "B \<in> set (entries (parentMap m) A)"
    and "A \<in> set (entries (parentMap m) B)"
    and "map_of (issueMap m) A = Some a"
  shows "\<exists>rest visited'.
           buildTreeLines m A level isLast {}
             = (\<lparr>rkey = A, rlevel = level, risLast = isLast\<rparr> # rest, visited')
           \<and> B \<in> visited'
           \<and> count_list (map rkey (fst (buildTreeLines m A level isLast {}))) A = 1
           \<and> count_list (map rkey (fst (buildTreeLines m A level isLast {}))) B
               = (if map_of (issueMap m) B = None then 0 else 1)"
proof -
  let ?keys = "map rkey (fst (buildTreeLines m A level isLast {}))"
  have d: "distinct ?keys"
    using walk_from_root(1)[OF assms(3)] .
  have ain: "A \<in> set ?keys"
    using walk_from_root(3)[OF assms(3)] .
  have child: "B \<in> set (allChildren m A)"
    using assms(1) by (simp add: allChildren_set)
  have visited: "B \<in> snd (buildTreeLines m A level isLast {})"
    using walk_from_root(6)[OF assms(3), of level isLast] child by blast
  have cnt: "count_list ?keys B = (if map_of (issueMap m) B = None then 0 else 1)"
  proof (cases "map_of (issueMap m) B")
    case None
    then have "B \<notin> set ?keys"
      using walk_from_root(2)[OF assms(3), of level isLast] map_of_not_keysOf[OF None] by blast
    then show ?thesis using None by simp
  next
    case (Some b)
    have "B \<in> set (allChildren m A) \<inter> keysOf m"
      using child map_of_keysOf[OF Some] by simp
    then have "B \<in> set ?keys"
      using walk_from_root(4)[OF assms(3), of level isLast] by blast
    then show ?thesis using Some count_list_distinct[OF d] by simp
  qed
  obtain rest where hd: "fst (buildTreeLines m A level isLast {})
      = \<lparr>rkey = A, rlevel = level, risLast = isLast\<rparr> # rest"
    using walk_from_root(5)[OF assms(3)] by blast
  then have "buildTreeLines m A level isLast {}
      = (\<lparr>rkey = A, rlevel = level, risLast = isLast\<rparr> # rest,
         snd (buildTreeLines m A level isLast {}))"
    by (metis prod.collapse)
  then show ?thesis
    using visited cnt count_list_distinct[OF d ain] by blast
qed

theorem containment_cycle_walk_witness:
  "map rkey (fst (buildTreeLines cycleExample ''A-1'' 0 True {})) = [''A-1'', ''B-1'']
   \<and> ''B-1'' \<in> snd (buildTreeLines cycleExample ''A-1'' 0 True {})
   \<and> count_list (map rkey (fst (buildTreeLines cycleExample ''A-1'' 0 True {}))) ''B-1'' = 1
   \<and> count_list (map rkey (fst (buildTreeLines cycleExample ''A-1'' 0 True {}))) ''A-1'' = 1"
proof -
  have 1: "''B-1'' \<in> set (entries (parentMap cycleExample) ''A-1'')" by code_simp
  have 2: "''A-1'' \<in> set (entries (parentMap cycleExample) ''B-1'')" by code_simp
  have 3: "map_of (issueMap cycleExample) ''A-1''
             = Some (exampleIssue ''A-1'' EpicNone [parentOfLink ''B-1''])"
    by (simp add: cycleExample_def)
  have 4: "map_of (issueMap cycleExample) ''B-1'' \<noteq> None"
    by (simp add: cycleExample_def)
  have run: "map rkey (fst (buildTreeLines cycleExample ''A-1'' 0 True {})) = [''A-1'', ''B-1'']"
    by code_simp
  obtain rest visited' where w:
    "buildTreeLines cycleExample ''A-1'' 0 True {}
       = (\<lparr>rkey = ''A-1'', rlevel = 0, risLast = True\<rparr> # rest, visited')"
    "''B-1'' \<in> visited'"
    "count_list (map rkey (fst (buildTreeLines cycleExample ''A-1'' 0 True {}))) ''A-1'' = 1"
    "count_list (map rkey (fst (buildTreeLines cycleExample ''A-1'' 0 True {}))) ''B-1''
       = (if map_of (issueMap cycleExample) ''B-1'' = None then 0 else 1)"
    using containment_cycle_walk[OF 1 2 3, of 0 True] by blast
  have v: "''B-1'' \<in> snd (buildTreeLines cycleExample ''A-1'' 0 True {})"
    using w(1,2) by simp
  show ?thesis using run v w(3,4) 4 by simp
qed














text \<open>
  C10: \<open>completeIssue\<close> without an issue key asks the tracker file for the last viewed
  issue. When there is none the call returns the explanatory answer, and when there is one
  but the confirm flag is not set it returns the confirmation request; in both cases the
  tracker state and the list of calls are as before, so that neither a lookup nor a
  transition was made.
\<close>

theorem complete_without_key:
  assumes "truthyKey (cpIssueKey params) = None"
  shows "(getLastIssue file = None \<longrightarrow>
            completeIssue api generate file params st = (Inr NothingToComplete, st))
       \<and> (\<forall>k. getLastIssue file = Some k \<and> \<not> cpConfirm params \<longrightarrow>
            completeIssue api generate file params st = (Inr (ConfirmationRequest k), st))"
  using assms by (simp add: completeIssue_def returns_def)

theorem complete_without_key_witness:
  "completeIssue workflowApi (\<lambda>i. detSummary i) NoTrackerFile noKeyParams (''To Do'', [])
     = (Inr NothingToComplete, (''To Do'', []))
   \<and> completeIssue workflowApi (\<lambda>i. detSummary i) (TrackerFile (Some ''T-1'')) noKeyParams
        (''To Do'', [])
     = (Inr (ConfirmationRequest ''T-1''), (''To Do'', []))"
proof -
  have a: "truthyKey (cpIssueKey noKeyParams) = None"
    by (simp add: noKeyParams_def truthyKey_def)
  have n: "getLastIssue NoTrackerFile = None" by (simp add: getLastIssue_def)
  have s: "getLastIssue (TrackerFile (Some ''T-1'')) = Some ''T-1'' \<and> \<not> cpConfirm noKeyParams"
    by (simp add: getLastIssue_def truthyKey_def noKeyParams_def)
  show ?thesis
    using complete_without_key[OF a, of NoTrackerFile workflowApi "\<lambda>i. detSummary i" "(''To Do'', [])"]
          complete_without_key[OF a, of "TrackerFile (Some ''T-1'')" workflowApi "\<lambda>i. detSummary i" "(''To Do'', [])"]
          n s
    by blast
qed

end
